theory Spec2Isabelle
  imports Main
begin

section \<open>String primitives of the host language\<close>

text \<open>
  Strings are lists of characters. The type \<^typ>\<open>char\<close> has 256 values, read here as the
  code units U+0000 to U+00FF; the white space that \<open>trim\<close> strips in that range is
  tab, line feed, vertical tab, form feed, carriage return, space and the no-break space.
\<close>

abbreviation NL :: char where
  "NL \<equiv> CHR 0x0A"

definition startsWith :: "string \<Rightarrow> string \<Rightarrow> bool" where
  "startsWith s p = (take (length p) s = p)"

definition endsWith :: "string \<Rightarrow> string \<Rightarrow> bool" where
  "endsWith s p = (length p \<le> length s \<and> drop (length s - length p) s = p)"

fun includesStr :: "string \<Rightarrow> string \<Rightarrow> bool" where
  "includesStr [] p = (p = [])"
| "includesStr (c # cs) p = (startsWith (c # cs) p \<or> includesStr cs p)"

fun indexOf :: "string \<Rightarrow> char \<Rightarrow> nat option" where
  "indexOf [] c = None"
| "indexOf (x # xs) c = (if x = c then Some 0 else map_option Suc (indexOf xs c))"

fun lastIndexOf :: "string \<Rightarrow> char \<Rightarrow> nat option" where
  "lastIndexOf [] c = None"
| "lastIndexOf (x # xs) c =
     (case lastIndexOf xs c of
        Some i \<Rightarrow> Some (Suc i)
      | None \<Rightarrow> (if x = c then Some 0 else None))"

definition isWhite :: "char \<Rightarrow> bool" where
  "isWhite c = (c = CHR 0x09 \<or> c = CHR 0x0A \<or> c = CHR 0x0B \<or> c = CHR 0x0C \<or> c = CHR 0x0D
                \<or> c = CHR 0x20 \<or> c = CHR 0xA0)"

definition trim :: "string \<Rightarrow> string" where
  "trim s = rev (dropWhile isWhite (rev (dropWhile isWhite s)))"

section \<open>The File Set\<close>

text \<open>
  \<open>FileData\<close> of \<open>CodeWorkspace.tsx\<close>. The optional fields \<open>path\<close> and \<open>type\<close> are
  options; the optional \<open>children\<close> field is written by none of the operations below and is
  left out.
\<close>

datatype FileType = File | Folder

record FileData =
  fileName :: string
  content :: string
  path :: "string option"
  ftype :: "FileType option"

type_synonym FileSet = "FileData list"

definition some :: "('a \<Rightarrow> bool) \<Rightarrow> 'a list \<Rightarrow> bool" where
  "some p xs = list_ex p xs"

section \<open>Application state\<close>

text \<open>
  The \<open>useState\<close> cells of the top-level component that the operations below read or
  write. \<open>error\<close> is \<open>string | null\<close>.
\<close>

record AppState =
  files :: FileSet
  activeFileName :: string
  isLoading :: bool
  error :: "string option"
  prompt :: string

section \<open>The stream demultiplexer (\<open>handleSubmit\<close>)\<close>

text \<open>
  The loop of \<open>handleSubmit\<close> works on the application state and on its two locals,
  \<open>currentFileName\<close> (\<open>null\<close> is \<open>None\<close>) and \<open>buffer\<close>. The generation stream is
  the list of the texts of its chunks, followed either by normal completion or by a raised
  value.

  A call \<open>setFiles(updater)\<close> queues the updater. The loop over the lines of a chunk is
  synchronous, so the updaters it has queued run, in order, when it has ended and
  \<open>handleSubmit\<close> waits for the next chunk. An updater sees the constants of its iteration
  (\<open>newFileName\<close>, \<open>line\<close>) as they were at the call, and the variable
  \<open>currentFileName\<close> as it is when the updater runs. \<open>setActiveFileName\<close> is given a
  value, so the pointer after the chunk is the name of its last marker either way.
\<close>

record DemuxState = AppState +
  currentFileName :: "string option"
  buffer :: string

definition marker :: string where
  "marker = ''>>>FILE:''"

definition parentPath :: "string \<Rightarrow> string" where
  "parentPath newFileName =
     (if includesStr newFileName ''/''
      then (case lastIndexOf newFileName (CHR ''/'') of
              Some i \<Rightarrow> take i newFileName
            | None \<Rightarrow> [])
      else [])"

definition addFile :: "string \<Rightarrow> FileSet \<Rightarrow> FileSet" where
  "addFile newFileName prevFiles =
     (if some (\<lambda>f. fileName f = newFileName) prevFiles then prevFiles
      else prevFiles @
        [\<lparr>fileName = newFileName, content = [], path = Some (parentPath newFileName),
          ftype = Some File\<rparr>])"

definition appendTo :: "string \<Rightarrow> string \<Rightarrow> FileSet \<Rightarrow> FileSet" where
  "appendTo target txt prevFiles =
     map (\<lambda>f. if fileName f = target then f\<lparr>content := content f @ txt\<rparr> else f) prevFiles"

text \<open>Truthiness of a \<open>string | null\<close>: \<open>null\<close> and the empty string are falsy.\<close>

fun truthy :: "string option \<Rightarrow> bool" where
  "truthy None = False"
| "truthy (Some s) = (s \<noteq> [])"

text \<open>The two updaters of the loop, with what each has captured by value.\<close>

datatype Updater = AddFile string | AppendLine string

text \<open>
  Running an updater on the latest File Set, \<open>cur\<close> being \<open>currentFileName\<close> at that
  moment (no file name equals \<open>null\<close>).
\<close>

fun runUpdater :: "string option \<Rightarrow> Updater \<Rightarrow> FileSet \<Rightarrow> FileSet" where
  "runUpdater cur (AddFile newFileName) prevFiles = addFile newFileName prevFiles"
| "runUpdater cur (AppendLine line) prevFiles =
     (case cur of
        None \<Rightarrow> prevFiles
      | Some target \<Rightarrow> appendTo target (line @ [NL]) prevFiles)"

text \<open>The body of the loop for one complete line: the new locals and the updaters queued.\<close>

definition processLine :: "string \<Rightarrow> DemuxState \<Rightarrow> DemuxState \<times> Updater list" where
  "processLine line st =
     (if startsWith line marker then
        (let newFileName = trim (drop (length marker) line) in
         if newFileName \<noteq> [] then
           (st\<lparr>activeFileName := newFileName, currentFileName := Some newFileName\<rparr>,
            [AddFile newFileName])
         else (st, []))
      else if truthy (currentFileName st) then (st, [AppendLine line])
      else (st, []))"

lemma indexOf_less: "indexOf s c = Some i \<Longrightarrow> i < length s"
  by (induction s arbitrary: i) (auto split: if_splits)

lemma buffer_processLine [simp]: "buffer (fst (processLine line st)) = buffer st"
  by (simp add: processLine_def Let_def)

text \<open>
  The inner \<open>while\<close> loop: consume every complete line of the buffer, collecting the
  updaters.
\<close>

function drain :: "DemuxState \<Rightarrow> Updater list \<Rightarrow> DemuxState \<times> Updater list" where
  "drain st queue =
     (case indexOf (buffer st) NL of
        None \<Rightarrow> (st, queue)
      | Some lineEndIndex \<Rightarrow>
          (let r = processLine (take lineEndIndex (buffer st))
                     (st\<lparr>buffer := drop (lineEndIndex + 1) (buffer st)\<rparr>)
           in drain (fst r) (queue @ snd r)))"
  by pat_completeness auto
termination
  by (relation "measure (\<lambda>(st, queue). length (buffer st))") (auto dest: indexOf_less)

declare drain.simps [simp del]

text \<open>The queued updaters run on the File Set, with the locals as the loop has left them.\<close>

definition runQueue :: "Updater list \<Rightarrow> DemuxState \<Rightarrow> DemuxState" where
  "runQueue queue st =
     st\<lparr>files := foldl (\<lambda>fs u. runUpdater (currentFileName st) u fs) (files st) queue\<rparr>"

text \<open>One iteration of \<open>for await (const chunk of stream)\<close>.\<close>

definition feed :: "DemuxState \<Rightarrow> string \<Rightarrow> DemuxState" where
  "feed st chunk =
     (let r = drain (st\<lparr>buffer := buffer st @ chunk\<rparr>) [] in runQueue (snd r) (fst r))"

text \<open>
  After the stream is done: the remaining text of the buffer. Its updater reads
  \<open>currentFileName\<close> and \<open>buffer\<close> when nothing changes them any more.
\<close>

definition flush :: "DemuxState \<Rightarrow> DemuxState" where
  "flush st =
     (if truthy (currentFileName st) \<and> length (buffer st) > 0
      then st\<lparr>files := appendTo (the (currentFileName st)) (buffer st) (files st)\<rparr>
      else st)"

definition start :: "AppState \<Rightarrow> DemuxState" where
  "start st =
     \<lparr>files = files st, activeFileName = activeFileName st, isLoading = isLoading st,
      error = error st, prompt = prompt st, currentFileName = None, buffer = []\<rparr>"

definition appOf :: "DemuxState \<Rightarrow> AppState" where
  "appOf d =
     \<lparr>files = files d, activeFileName = activeFileName d, isLoading = isLoading d,
      error = error d, prompt = prompt d\<rparr>"

text \<open>The state when the stream has delivered \<open>chunks\<close>, and after it has ended normally.\<close>

definition streamed :: "AppState \<Rightarrow> string list \<Rightarrow> DemuxState" where
  "streamed st chunks = foldl feed (start st) chunks"

definition demux :: "AppState \<Rightarrow> string list \<Rightarrow> DemuxState" where
  "demux st chunks = flush (streamed st chunks)"

section \<open>The formatter gateway (\<open>formatter.ts\<close>)\<close>

datatype Parser = Html | Css | Babel

text \<open>A value that was thrown: an \<open>Error\<close> object with its message, or anything else.\<close>

datatype Thrown = ErrorObj string | NonError

definition getParser :: "string \<Rightarrow> Parser option" where
  "getParser fileName' =
     (if endsWith fileName' ''.html'' then Some Html
      else if endsWith fileName' ''.css'' then Some Css
      else if endsWith fileName' ''.js'' \<or> endsWith fileName' ''.jsx''
              \<or> endsWith fileName' ''.ts'' \<or> endsWith fileName' ''.tsx'' then Some Babel
      else None)"

definition countChar :: "char \<Rightarrow> string \<Rightarrow> nat" where
  "countChar c s = length (filter (\<lambda>x. x = c) s)"

text \<open>
  The pretty-printer is an external library: \<open>formatCode\<close> takes it as the parameter
  \<open>prettier\<close>, which returns the formatted text or the value it threw. The result of
  \<open>formatCode\<close> is a sum as well, so that a rejected promise would be \<open>Inl\<close>.
\<close>

definition formatCode ::
  "(Parser \<Rightarrow> string \<Rightarrow> Thrown + string) \<Rightarrow> string \<Rightarrow> string \<Rightarrow> Thrown + string" where
  "formatCode prettier fileName' content' =
     (case getParser fileName' of
        None \<Rightarrow> Inr content'
      | Some parser \<Rightarrow>
          if endsWith fileName' ''.css''
             \<and> countChar (CHR ''{'') content' \<noteq> countChar (CHR ''}'') content'
          then Inr content'
          else if trim content' = [] \<or> length (trim content') < 10 then Inr content'
          else (case prettier parser content' of
                  Inr formattedContent \<Rightarrow> Inr formattedContent
                | Inl e \<Rightarrow> Inr content'))"

section \<open>\<open>handleSubmit\<close> as a whole\<close>

text \<open>
  The final formatting pass of the \<open>finally\<close> block: \<open>Promise.all\<close> over the files, each
  rebuilt from its name and its formatted content only; the File Set is replaced when every
  promise is fulfilled and left as it is otherwise.
\<close>

fun promiseAll :: "(Thrown + 'a) list \<Rightarrow> Thrown + 'a list" where
  "promiseAll [] = Inr []"
| "promiseAll (Inl e # rs) = Inl e"
| "promiseAll (Inr x # rs) = (case promiseAll rs of Inl e \<Rightarrow> Inl e | Inr xs \<Rightarrow> Inr (x # xs))"

definition formatFile ::
  "(Parser \<Rightarrow> string \<Rightarrow> Thrown + string) \<Rightarrow> FileData \<Rightarrow> Thrown + FileData" where
  "formatFile prettier file =
     (case formatCode prettier (fileName file) (content file) of
        Inl e \<Rightarrow> Inl e
      | Inr c \<Rightarrow> Inr \<lparr>fileName = fileName file, content = c, path = None, ftype = None\<rparr>)"

definition formattingPass ::
  "(Parser \<Rightarrow> string \<Rightarrow> Thrown + string) \<Rightarrow> FileSet \<Rightarrow> FileSet" where
  "formattingPass prettier currentFiles =
     (case promiseAll (map (formatFile prettier) currentFiles) of
        Inr formattedFiles \<Rightarrow> formattedFiles
      | Inl e \<Rightarrow> currentFiles)"

definition errorMessage :: "Thrown \<Rightarrow> string" where
  "errorMessage e = (case e of ErrorObj m \<Rightarrow> m | NonError \<Rightarrow> ''An unknown error occurred.'')"

definition failureText :: "Thrown \<Rightarrow> string" where
  "failureText e =
     ''Failed to generate code: '' @ errorMessage e
       @ ''. Please check your API key and try again.''"

text \<open>
  \<open>handleSubmit\<close>: \<open>finalPrompt\<close> is the optional argument, \<open>chunks\<close> the texts the
  stream delivers and \<open>raised\<close> the value it raises after them, if any (a failure to open
  the stream is \<open>chunks = []\<close> with a raised value). The restart of the voice capture at
  the end touches none of these cells and is left out.
\<close>

definition handleSubmit ::
  "(Parser \<Rightarrow> string \<Rightarrow> Thrown + string) \<Rightarrow> string option \<Rightarrow> string list \<Rightarrow> Thrown option
     \<Rightarrow> AppState \<Rightarrow> AppState" where
  "handleSubmit prettier finalPrompt chunks raised st =
     (let promptToUse = (if truthy finalPrompt then the finalPrompt else prompt st) in
      if trim promptToUse = [] \<or> isLoading st then st
      else
        let d = streamed (st\<lparr>isLoading := True, error := None\<rparr>) chunks;
            d' = (case raised of
                    None \<Rightarrow> flush d
                  | Some e \<Rightarrow> d\<lparr>error := Some (failureText e)\<rparr>);
            st' = (appOf d')\<lparr>isLoading := False\<rparr>
        in st'\<lparr>files := formattingPass prettier (files st')\<rparr>)"

section \<open>File operations of the workspace and the pointer effect\<close>

text \<open>\<open>files[0]?.fileName || ''\<close>\<close>

definition firstFileName :: "FileSet \<Rightarrow> string" where
  "firstFileName fs = (case fs of [] \<Rightarrow> [] | f # _ \<Rightarrow> (if fileName f \<noteq> [] then fileName f else []))"

definition handleDeleteFile :: "string \<Rightarrow> AppState \<Rightarrow> AppState" where
  "handleDeleteFile fileNameToDelete st =
     (let newFiles = filter (\<lambda>f. fileName f \<noteq> fileNameToDelete) (files st) in
      st\<lparr>files := newFiles,
         activeFileName :=
           (if activeFileName st = fileNameToDelete then firstFileName newFiles
            else activeFileName st)\<rparr>)"

definition handleCreateFile :: "string \<Rightarrow> string option \<Rightarrow> AppState \<Rightarrow> AppState" where
  "handleCreateFile name folderPath st =
     st\<lparr>files := files st @
           [\<lparr>fileName = name, content = [],
             path = Some (if truthy folderPath then the folderPath else []),
             ftype = Some File\<rparr>],
        activeFileName := name\<rparr>"

definition handleContentChange :: "string option \<Rightarrow> AppState \<Rightarrow> AppState" where
  "handleContentChange newContent st =
     (case newContent of
        None \<Rightarrow> st
      | Some c \<Rightarrow>
          st\<lparr>files := map (\<lambda>file. if fileName file = activeFileName st
                                  then file\<lparr>content := c\<rparr> else file) (files st)\<rparr>)"

text \<open>The state cells that \<open>resetProject\<close> sets (its clearing of the storage is below).\<close>

definition resetProject :: "AppState \<Rightarrow> AppState" where
  "resetProject st = st\<lparr>files := [], activeFileName := [], prompt := [], error := None\<rparr>"

text \<open>
  The effect that runs after every change of \<open>files\<close> or \<open>activeFileName\<close>; its write of
  the File Set to the storage does not touch the state.
\<close>

definition filesEffect :: "AppState \<Rightarrow> AppState" where
  "filesEffect st =
     (if \<not> some (\<lambda>f. fileName f = activeFileName st) (files st)
      then st\<lparr>activeFileName := firstFileName (files st)\<rparr>
      else st)"

datatype Change =
    DeleteFile string
  | CreateFile string "string option"
  | ContentChange "string option"
  | Reset
  | Generate "string option" "string list" "Thrown option"

fun applyChange ::
  "(Parser \<Rightarrow> string \<Rightarrow> Thrown + string) \<Rightarrow> Change \<Rightarrow> AppState \<Rightarrow> AppState" where
  "applyChange prettier (DeleteFile n) st = handleDeleteFile n st"
| "applyChange prettier (CreateFile n p) st = handleCreateFile n p st"
| "applyChange prettier (ContentChange c) st = handleContentChange c st"
| "applyChange prettier Reset st = resetProject st"
| "applyChange prettier (Generate p chunks raised) st = handleSubmit prettier p chunks raised st"

definition pointerOk :: "'a AppState_scheme \<Rightarrow> bool" where
  "pointerOk st = (activeFileName st = [] \<or> some (\<lambda>f. fileName f = activeFileName st) (files st))"

section \<open>Loading the persisted project\<close>

text \<open>
  The storage is an ordered list of key and value strings with distinct keys. The stored
  text is read by \<open>JSON.parse\<close>, a builtin taken as the parameter \<open>parse\<close> (\<open>None\<close> when it
  throws a syntax error); its result is a JSON value, an object being the list of its fields.
\<close>

datatype json =
    JNull
  | JBool bool
  | JNum int
  | JStr string
  | JArr "json list"
  | JObj "(string \<times> json) list"

type_synonym storage = "(string \<times> string) list"

definition getItem :: "storage \<Rightarrow> string \<Rightarrow> string option" where
  "getItem ls key = map_of ls key"

definition removeItem :: "string \<Rightarrow> storage \<Rightarrow> storage" where
  "removeItem key ls = filter (\<lambda>kv. fst kv \<noteq> key) ls"

definition isString :: "json option \<Rightarrow> bool" where
  "isString v = (case v of Some (JStr s) \<Rightarrow> True | _ \<Rightarrow> False)"

text \<open>
  The callback of \<open>parsed.every\<close>. \<open>typeof null\<close> is \<open>'object'\<close>, and reading a
  property of \<open>null\<close> throws a \<open>TypeError\<close>; an array is an object without the two
  properties.
\<close>

fun fileShaped :: "json \<Rightarrow> Thrown + bool" where
  "fileShaped JNull = Inl (ErrorObj ''Cannot read properties of null'')"
| "fileShaped (JObj props) =
     Inr (isString (map_of props ''fileName'') \<and> isString (map_of props ''content''))"
| "fileShaped (JArr xs) = Inr False"
| "fileShaped (JBool b) = Inr False"
| "fileShaped (JNum n) = Inr False"
| "fileShaped (JStr s) = Inr False"

text \<open>\<open>Array.prototype.every\<close> stops at the first element that fails the test.\<close>

fun every :: "('a \<Rightarrow> Thrown + bool) \<Rightarrow> 'a list \<Rightarrow> Thrown + bool" where
  "every p [] = Inr True"
| "every p (x # xs) =
     (case p x of
        Inl e \<Rightarrow> Inl e
      | Inr b \<Rightarrow> (if b then every p xs else Inr False))"

definition relatedKey :: "string \<Rightarrow> bool" where
  "relatedKey key = (includesStr key ''code'' \<or> includesStr key ''project'' \<or> includesStr key ''ai'')"

text \<open>The clearing of the \<open>catch\<close> branch (and of \<open>resetProject\<close>).\<close>

definition clearProjectKeys :: "storage \<Rightarrow> storage" where
  "clearProjectKeys ls =
     (let ls1 = removeItem ''code-project'' ls;
          keysToRemove = filter (\<lambda>key. key \<noteq> [] \<and> relatedKey key) (map fst ls1)
      in foldl (\<lambda>s key. removeItem key s) ls1 keysToRemove)"

text \<open>The initialiser of the \<open>files\<close> state: the initial File Set and the storage it leaves.\<close>

definition loadFiles :: "(string \<Rightarrow> json option) \<Rightarrow> storage \<Rightarrow> json list \<times> storage" where
  "loadFiles parse ls =
     (case getItem ls ''code-project'' of
        None \<Rightarrow> ([], ls)
      | Some saved \<Rightarrow>
          if saved = [] then ([], ls)
          else
            (case parse saved of
               None \<Rightarrow> ([], clearProjectKeys ls)
             | Some parsed \<Rightarrow>
                 (case parsed of
                    JArr xs \<Rightarrow>
                      (case every fileShaped xs of
                         Inl e \<Rightarrow> ([], clearProjectKeys ls)
                       | Inr ok \<Rightarrow>
                           if ok then (xs, ls)
                           else ([], removeItem ''code-project'' ls))
                  | _ \<Rightarrow> ([], removeItem ''code-project'' ls))))"

section \<open>Lines of a text\<close>

text \<open>The text of a list of lines, each ended by a line feed.\<close>

definition lineText :: "string list \<Rightarrow> string" where
  "lineText ls = concat (map (\<lambda>l. l @ [NL]) ls)"

text \<open>The state of a fresh session: \<open>DEFAULT_FILES\<close>, no pointer, nothing loading.\<close>

definition initialState :: AppState where
  "initialState =
     \<lparr>files = [], activeFileName = [], isLoading = False, error = None, prompt = []\<rparr>"

text \<open>
  The example stream of the specification, as one chunk and as one chunk for each line.
\<close>

definition sampleChunk :: string where
  "sampleChunk = ''>>>FILE: a.txt'' @ [NL] @ ''hello'' @ [NL] @ ''world'' @ [NL]
                   @ ''>>>FILE: b.txt'' @ [NL] @ ''foo'' @ [NL]"

definition sampleLines :: "string list" where
  "sampleLines = [''>>>FILE: a.txt'' @ [NL], ''hello'' @ [NL], ''world'' @ [NL],
                  ''>>>FILE: b.txt'' @ [NL], ''foo'' @ [NL]]"

section \<open>Stand-ins for the external collaborators, for concrete inputs\<close>

text \<open>A pretty-printer that rejects every input.\<close>

definition failingPrinter :: "Parser \<Rightarrow> string \<Rightarrow> Thrown + string" where
  "failingPrinter p s = Inl (ErrorObj ''SyntaxError'')"

text \<open>
  A pretty-printer given by a finite table of inputs and outputs; it rejects what is not in
  the table.
\<close>

definition tablePrinter ::
  "((Parser \<times> string) \<times> string) list \<Rightarrow> Parser \<Rightarrow> string \<Rightarrow> Thrown + string" where
  "tablePrinter t p s =
     (case map_of t (p, s) of
        Some r \<Rightarrow> Inr r
      | None \<Rightarrow> Inl (ErrorObj ''SyntaxError''))"

text \<open>The content of a file after the gateway, and the File Set a generation has built so far.\<close>

definition formatted :: "(Parser \<Rightarrow> string \<Rightarrow> Thrown + string) \<Rightarrow> FileData \<Rightarrow> string" where
  "formatted prettier f =
     (case formatCode prettier (fileName f) (content f) of Inr c \<Rightarrow> c | Inl e \<Rightarrow> content f)"

definition builtSoFar :: "AppState \<Rightarrow> string list \<Rightarrow> DemuxState" where
  "builtSoFar st chunks = streamed (st\<lparr>isLoading := True, error := None\<rparr>) chunks"

text \<open>
  A stored element that is an object with a string \<open>fileName\<close> and a string \<open>content\<close>.
\<close>

definition validFile :: "json \<Rightarrow> bool" where
  "validFile j =
     (case j of
        JObj props \<Rightarrow> isString (map_of props ''fileName'') \<and> isString (map_of props ''content'')
      | _ \<Rightarrow> False)"

text \<open>A stored project of one file, as JSON text, and what \<open>JSON.parse\<close> makes of it.\<close>

definition quoted :: "string \<Rightarrow> string" where
  "quoted s = CHR 0x22 # s @ [CHR 0x22]"

definition sampleStored :: string where
  "sampleStored =
     ''[{'' @ quoted ''fileName'' @ '':'' @ quoted ''a.txt'' @ '','' @ quoted ''content'' @ '':''
       @ quoted ''hi'' @ ''}]''"

definition sampleParsed :: json where
  "sampleParsed = JArr [JObj [(''fileName'', JStr ''a.txt''), (''content'', JStr ''hi'')]]"

text \<open>A stream that is cut off inside the second line of a script file.\<close>

definition twoSpaces :: string where
  "twoSpaces = ''>>>FILE: a.js'' @ [NL] @ ''var   x = 1;'' @ [NL] @ ''var y''"

text \<open>A project of two files, the first one active.\<close>

definition twoFiles :: AppState where
  "twoFiles =
     \<lparr>files = [\<lparr>fileName = ''a.txt'', content = ''A'', path = Some [], ftype = Some File\<rparr>,
               \<lparr>fileName = ''b.txt'', content = ''B'', path = Some [], ftype = Some File\<rparr>],
      activeFileName = ''a.txt'', isLoading = False, error = None, prompt = []\<rparr>"

section \<open>Complete lines and the partial last line of a text\<close>

text \<open>The text after the last line feed of a text: its partial last line.\<close>

definition leftover :: "string \<Rightarrow> string" where
  "leftover s = rev (takeWhile (\<lambda>c. c \<noteq> NL) (rev s))"

text \<open>The lines of a text that are ended by a line feed, in order.\<close>

function completeLines :: "string \<Rightarrow> string list" where
  "completeLines s =
     (case indexOf s NL of
        None \<Rightarrow> []
      | Some i \<Rightarrow> take i s # completeLines (drop (i + 1) s))"
  by pat_completeness auto
termination
  by (relation "measure length") (auto dest: indexOf_less)

declare completeLines.simps [simp del]

text \<open>A stream whose second chunk has two markers.\<close>

definition twoTargets :: "string list" where
  "twoTargets = [''>>>FILE: a.txt'' @ [NL] @ ''one'' @ [NL],
                 ''>>>FILE: b.txt'' @ [NL] @ ''two'' @ [NL] @ ''>>>FILE: a.txt'' @ [NL]
                   @ ''three'' @ [NL]]"

text \<open>A project of a page and a style sheet, and a stream that regenerates both.\<close>

definition webProject :: AppState where
  "webProject =
     \<lparr>files = [\<lparr>fileName = ''index.html'', content = ''<p>old</p>'' @ [NL], path = Some [],
                 ftype = Some File\<rparr>,
               \<lparr>fileName = ''style.css'', content = ''p {}'' @ [NL], path = Some [],
                 ftype = Some File\<rparr>],
      activeFileName = ''style.css'', isLoading = False, error = None, prompt = []\<rparr>"

definition webStream :: string where
  "webStream = ''>>>FILE: index.html'' @ [NL] @ ''<p>new</p>'' @ [NL]
                 @ ''>>>FILE: style.css'' @ [NL] @ ''b {}'' @ [NL]"

section \<open>The line loop\<close>

lemma indexOf_None_iff: "indexOf s c = None \<longleftrightarrow> c \<notin> set s"
  by (induction s) auto

lemma indexOf_append_Some: "indexOf s c = Some i \<Longrightarrow> indexOf (s @ t) c = Some i"
  by (induction s arbitrary: i) (auto split: if_splits)

lemma indexOf_first: "c \<notin> set l \<Longrightarrow> indexOf (l @ c # t) c = Some (length l)"
  by (induction l) auto

lemma indexOf_split: "indexOf s c = Some i \<Longrightarrow> s = take i s @ c # drop (Suc i) s"
  by (induction s arbitrary: i) (auto split: if_splits)

lemma indexOf_take: "indexOf s c = Some i \<Longrightarrow> c \<notin> set (take i s)"
  by (induction s arbitrary: i) (auto split: if_splits)

lemma some_iff: "some p xs \<longleftrightarrow> (\<exists>x \<in> set xs. p x)"
  by (simp add: some_def list_ex_iff)

lemma processLine_buffer_update:
  "processLine line (st\<lparr>buffer := b\<rparr>)
     = ((fst (processLine line st))\<lparr>buffer := b\<rparr>, snd (processLine line st))"
  by (simp add: processLine_def Let_def)

lemma drain_no_newline: "NL \<notin> set (buffer st) \<Longrightarrow> drain st queue = (st, queue)"
  by (subst drain.simps) (simp add: indexOf_None_iff [symmetric])

lemma drain_one_line:
  assumes "NL \<notin> set l"
  shows "drain (st\<lparr>buffer := l @ NL # r\<rparr>) queue
           = drain ((fst (processLine l st))\<lparr>buffer := r\<rparr>) (queue @ snd (processLine l st))"
  by (subst drain.simps)
     (simp add: indexOf_first [OF assms] processLine_buffer_update Let_def)

lemma runQueue_Nil: "runQueue [] st = st"
  by (simp add: runQueue_def)

lemma feed_line:
  assumes "NL \<notin> set (buffer d)" "NL \<notin> set txt"
  shows "feed d (txt @ [NL])
           = runQueue (snd (processLine (buffer d @ txt) d))
               ((fst (processLine (buffer d @ txt) d))\<lparr>buffer := []\<rparr>)"
proof -
  have "NL \<notin> set (buffer d @ txt)" using assms by simp
  from drain_one_line [OF this, where st = d and r = "[]" and queue = "[]"]
  show ?thesis by (simp add: feed_def Let_def drain_no_newline)
qed

section \<open>Complete lines and the partial line\<close>

lemma leftover_no_newline: "NL \<notin> set s \<Longrightarrow> leftover s = s"
proof -
  assume "NL \<notin> set s"
  then have "takeWhile (\<lambda>c. c \<noteq> NL) (rev s) = rev s"
    by (intro takeWhile_eq_all_conv [THEN iffD2]) auto
  then show ?thesis unfolding leftover_def by (simp only: rev_rev_ident)
qed

lemma leftover_append_line: "leftover (l @ NL # t) = leftover t"
proof (cases "NL \<in> set t")
  case True
  then obtain x where "x \<in> set (rev t)" "\<not> x \<noteq> NL" by auto
  then show ?thesis by (simp add: leftover_def takeWhile_append1)
next
  case False
  then have "takeWhile (\<lambda>c. c \<noteq> NL) (rev t @ NL # rev l) = rev t"
    by (subst takeWhile_append2) auto
  then have "leftover (l @ NL # t) = t"
    unfolding leftover_def
    by (simp only: rev_append rev.simps rev_rev_ident append.simps append_assoc)
  then show ?thesis using False by (simp add: leftover_no_newline)
qed

lemma leftover_lineText: "leftover (lineText ls @ r) = leftover r"
  by (induction ls) (simp_all add: lineText_def leftover_append_line)

lemma completeLines_no_newline: "NL \<notin> set s \<Longrightarrow> completeLines s = []"
  by (subst completeLines.simps) (simp add: indexOf_None_iff [symmetric])

lemma completeLines_line: "NL \<notin> set l \<Longrightarrow> completeLines (l @ NL # r) = l # completeLines r"
  by (subst completeLines.simps) (simp add: indexOf_first)

lemma completeLines_lineText:
  "\<forall>l \<in> set ls. NL \<notin> set l \<Longrightarrow> completeLines (lineText ls @ r) = ls @ completeLines r"
  by (induction ls) (simp_all add: lineText_def completeLines_line)

lemma text_decompose: "s = lineText (completeLines s) @ leftover s"
proof (induction s rule: completeLines.induct)
  case (1 s)
  show ?case
  proof (cases "indexOf s NL")
    case None
    then have "NL \<notin> set s" by (simp add: indexOf_None_iff)
    then show ?thesis by (simp add: completeLines_no_newline leftover_no_newline lineText_def)
  next
    case (Some i)
    let ?l = "take i s" and ?r = "drop (i + 1) s"
    have s: "s = ?l @ NL # ?r" using indexOf_split [OF Some] by simp
    have l: "NL \<notin> set ?l" using Some by (rule indexOf_take)
    have "completeLines s = ?l # completeLines ?r"
      using completeLines_line [OF l, of ?r] s by simp
    moreover have "leftover s = leftover ?r"
      using leftover_append_line [of ?l ?r] s by simp
    moreover have "?r = lineText (completeLines ?r) @ leftover ?r" using "1.IH" [OF Some] .
    ultimately have "lineText (completeLines s) @ leftover s = ?l @ NL # ?r"
      by (simp add: lineText_def)
    then show ?thesis using s by simp
  qed
qed

lemma completeLines_lines: "l \<in> set (completeLines s) \<Longrightarrow> NL \<notin> set l"
proof (induction s rule: completeLines.induct)
  case (1 s)
  show ?case
  proof (cases "indexOf s NL")
    case None
    then have "completeLines s = []" by (subst completeLines.simps) simp
    then show ?thesis using "1.prems" by simp
  next
    case (Some i)
    have "completeLines s = take i s # completeLines (drop (i + 1) s)"
      using Some by (subst completeLines.simps) simp
    then show ?thesis using "1.prems" "1.IH" [OF Some] indexOf_take [OF Some] by auto
  qed
qed

lemma leftover_has_no_newline: "NL \<notin> set (leftover s)"
  unfolding leftover_def using set_takeWhileD [of NL "\<lambda>c. c \<noteq> NL" "rev s"] by auto

lemma text_decompose_append: "s @ t = lineText (completeLines s) @ (leftover s @ t)"
proof -
  have "(lineText (completeLines s) @ leftover s) @ t = s @ t"
    by (simp only: text_decompose [symmetric])
  then show ?thesis by (simp only: append_assoc)
qed

lemma completeLines_append:
  "completeLines (s @ t) = completeLines s @ completeLines (leftover s @ t)"
proof -
  have "completeLines (s @ t) = completeLines (lineText (completeLines s) @ (leftover s @ t))"
    by (simp only: text_decompose_append [symmetric])
  also have "\<dots> = completeLines s @ completeLines (leftover s @ t)"
    by (intro completeLines_lineText) (simp add: completeLines_lines)
  finally show ?thesis .
qed

lemma leftover_append: "leftover (leftover s @ t) = leftover (s @ t)"
proof -
  have "leftover (s @ t) = leftover (lineText (completeLines s) @ (leftover s @ t))"
    by (simp only: text_decompose_append [symmetric])
  then show ?thesis by (simp only: leftover_lineText)
qed

section \<open>Lines before the first marker\<close>

lemma processLine_quiet:
  "currentFileName st = None \<Longrightarrow> \<not> startsWith l marker \<Longrightarrow> processLine l st = (st, [])"
  by (simp add: processLine_def)

lemma drain_quiet_lines:
  assumes "currentFileName st = None"
    and "\<forall>l \<in> set ls. NL \<notin> set l \<and> \<not> startsWith l marker"
  shows "drain (st\<lparr>buffer := lineText ls @ r\<rparr>) queue = drain (st\<lparr>buffer := r\<rparr>) queue"
  using assms(2)
proof (induction ls)
  case Nil
  then show ?case by (simp add: lineText_def)
next
  case (Cons l ls)
  have "lineText (l # ls) @ r = l @ NL # (lineText ls @ r)" by (simp add: lineText_def)
  moreover have "processLine l st = (st, [])"
    using assms(1) Cons.prems by (simp add: processLine_quiet)
  moreover have "NL \<notin> set l" using Cons.prems by simp
  ultimately have "drain (st\<lparr>buffer := lineText (l # ls) @ r\<rparr>) queue
      = drain (st\<lparr>buffer := lineText ls @ r\<rparr>) queue"
    by (simp add: drain_one_line)
  then show ?case using Cons by simp
qed

lemma feed_quiet:
  assumes "currentFileName d = None"
    and "\<forall>l \<in> set (completeLines (buffer d @ c)). \<not> startsWith l marker"
  shows "feed d c = d\<lparr>buffer := leftover (buffer d @ c)\<rparr>"
proof -
  let ?b = "buffer d @ c"
  have "drain (d\<lparr>buffer := lineText (completeLines ?b) @ leftover ?b\<rparr>) []
      = drain (d\<lparr>buffer := leftover ?b\<rparr>) []"
    using assms by (intro drain_quiet_lines) (simp_all add: completeLines_lines)
  then have "drain (d\<lparr>buffer := ?b\<rparr>) [] = (d\<lparr>buffer := leftover ?b\<rparr>, [])"
    by (simp add: text_decompose [symmetric] drain_no_newline leftover_has_no_newline)
  then show ?thesis by (simp add: feed_def runQueue_Nil)
qed

lemma foldl_feed_quiet:
  assumes "currentFileName d = None" and "NL \<notin> set (buffer d)"
  shows "\<forall>l \<in> set (completeLines (buffer d @ concat pcs)). \<not> startsWith l marker
     \<Longrightarrow> foldl feed d pcs = d\<lparr>buffer := leftover (buffer d @ concat pcs)\<rparr>"
proof (induction pcs rule: rev_induct)
  case Nil
  then show ?case using assms(2) by (simp add: leftover_no_newline)
next
  case (snoc c pcs)
  let ?p = "buffer d @ concat pcs"
  let ?d = "d\<lparr>buffer := leftover ?p\<rparr>"
  have cl: "completeLines (?p @ c) = completeLines ?p @ completeLines (leftover ?p @ c)"
    by (rule completeLines_append)
  have q: "\<forall>l \<in> set (completeLines (?p @ c)). \<not> startsWith l marker" using snoc.prems by simp
  have "foldl feed d pcs = ?d" using q cl by (intro snoc.IH) simp
  moreover have "feed ?d c = ?d\<lparr>buffer := leftover (buffer ?d @ c)\<rparr>"
    using assms(1) q cl by (intro feed_quiet) simp_all
  ultimately show ?case by (simp add: leftover_append)
qed

section \<open>The loader and the storage\<close>

lemma every_fileShaped:
  "every fileShaped xs =
     (case find (\<lambda>x. \<not> validFile x) xs of
        None \<Rightarrow> Inr True
      | Some x \<Rightarrow> (if x = JNull then Inl (ErrorObj ''Cannot read properties of null'') else Inr False))"
proof (induction xs)
  case Nil
  then show ?case by simp
next
  case (Cons x xs)
  then show ?case by (cases x) (simp_all add: validFile_def)
qed

lemma removeItem_commute: "removeItem a (removeItem b ls) = removeItem b (removeItem a ls)"
  by (induction ls) (auto simp: removeItem_def)

lemma foldl_removeItem:
  "foldl (\<lambda>s key. removeItem key s) ls ks = filter (\<lambda>kv. fst kv \<notin> set ks) ls"
proof (induction ks arbitrary: ls)
  case Nil
  then show ?case by simp
next
  case (Cons k ks)
  have "foldl (\<lambda>s key. removeItem key s) (k_removed) ks = filter (\<lambda>kv. fst kv \<notin> set ks) k_removed"
    for k_removed by (rule Cons.IH)
  then have "foldl (\<lambda>s key. removeItem key s) ls (k # ks)
      = filter (\<lambda>kv. fst kv \<notin> set ks) (removeItem k ls)"
    by (simp only: foldl.simps)
  also have "\<dots> = filter (\<lambda>kv. fst kv \<notin> set (k # ks)) ls"
    by (auto simp: removeItem_def intro: filter_cong)
  finally show ?case .
qed

lemma clearProjectKeys_filter:
  "clearProjectKeys ls = filter (\<lambda>kv. fst kv \<noteq> ''code-project'' \<and> \<not> relatedKey (fst kv)) ls"
proof -
  let ?ls1 = "removeItem ''code-project'' ls"
  have e: "\<not> relatedKey []" by (simp add: relatedKey_def)
  have "clearProjectKeys ls
      = filter (\<lambda>kv. fst kv \<notin> set (filter (\<lambda>key. key \<noteq> [] \<and> relatedKey key) (map fst ?ls1))) ?ls1"
    by (simp only: clearProjectKeys_def Let_def foldl_removeItem)
  also have "\<dots> = filter (\<lambda>kv. \<not> relatedKey (fst kv)) ?ls1"
    using e by (intro filter_cong) auto
  also have "\<dots> = filter (\<lambda>kv. fst kv \<noteq> ''code-project'' \<and> \<not> relatedKey (fst kv)) ls"
    by (auto simp: removeItem_def intro: filter_cong)
  finally show ?thesis .
qed

lemma getItem_removeItem: "getItem (removeItem k ls) k = None"
  by (auto simp: getItem_def removeItem_def map_of_eq_None_iff)

section \<open>The formatting pass and the error path\<close>

lemma formatCode_Inr: "formatCode prettier n c = Inr (case formatCode prettier n c of Inr r \<Rightarrow> r | Inl e \<Rightarrow> c)"
  by (auto simp: formatCode_def split: option.splits sum.splits)

lemma formatFile_Inr:
  "formatFile prettier f
     = Inr \<lparr>fileName = fileName f, content = formatted prettier f, path = None, ftype = None\<rparr>"
  using formatCode_Inr [of prettier "fileName f" "content f"]
  by (simp add: formatFile_def formatted_def split: sum.splits)

lemma promiseAll_Inr: "promiseAll (map (\<lambda>x. Inr (g x)) xs) = Inr (map g xs)"
  by (induction xs) simp_all

lemma formattingPass_map:
  "formattingPass prettier fs
     = map (\<lambda>f. \<lparr>fileName = fileName f, content = formatted prettier f, path = None,
                  ftype = None\<rparr>) fs"
proof -
  have "formatFile prettier
      = (\<lambda>f. Inr \<lparr>fileName = fileName f, content = formatted prettier f, path = None,
                     ftype = None\<rparr>)"
    by (rule ext) (rule formatFile_Inr)
  then show ?thesis by (simp add: formattingPass_def promiseAll_Inr)
qed

lemma handleSubmit_raised:
  assumes "trim (if truthy finalPrompt then the finalPrompt else prompt st) \<noteq> []" "\<not> isLoading st"
  shows "handleSubmit prettier finalPrompt chunks (Some e) st
    = \<lparr>files = map (\<lambda>f. \<lparr>fileName = fileName f, content = formatted prettier f, path = None,
                  ftype = None\<rparr>) (files (builtSoFar st chunks)),
       activeFileName = activeFileName (builtSoFar st chunks),
       isLoading = False, error = Some (failureText e),
       prompt = prompt (builtSoFar st chunks)\<rparr>"
  using assms by (simp add: handleSubmit_def Let_def appOf_def formattingPass_map builtSoFar_def)

section \<open>The active file pointer\<close>

lemma pointerOk_iff:
  "pointerOk st \<longleftrightarrow> activeFileName st = [] \<or> activeFileName st \<in> set (map fileName (files st))"
  unfolding pointerOk_def some_iff by (simp add: image_iff) metis

lemma pointerOk_names:
  "map fileName (files a) = map fileName (files b) \<Longrightarrow> activeFileName a = activeFileName b
     \<Longrightarrow> pointerOk a = pointerOk b"
  by (simp only: pointerOk_iff)

lemma firstFileName_ok: "fs = [] \<and> firstFileName fs = [] \<or> some (\<lambda>f. fileName f = firstFileName fs) fs"
  by (cases fs) (simp_all add: firstFileName_def some_def)

lemma firstFileName_names: "firstFileName fs = [] \<or> firstFileName fs \<in> set (map fileName fs)"
  by (cases fs) (simp_all add: firstFileName_def)

lemma pointerOk_filesEffect: "pointerOk (filesEffect st)"
proof (cases "some (\<lambda>f. fileName f = activeFileName st) (files st)")
  case True
  then show ?thesis by (simp add: filesEffect_def pointerOk_def)
next
  case False
  then show ?thesis
    using firstFileName_names [of "files st"] by (simp add: filesEffect_def pointerOk_iff)
qed

lemma pointerOk_handleDeleteFile:
  assumes "pointerOk st"
  shows "pointerOk (handleDeleteFile n st)"
proof (cases "activeFileName st = n")
  case True
  then show ?thesis
    using firstFileName_names [of "filter (\<lambda>f. fileName f \<noteq> n) (files st)"]
    by (simp add: handleDeleteFile_def Let_def pointerOk_iff)
next
  case False
  have "activeFileName st = [] \<or> activeFileName st \<in> fileName ` set (files st)"
    using assms by (simp add: pointerOk_iff)
  then have "activeFileName st = []
      \<or> activeFileName st \<in> fileName ` set (filter (\<lambda>f. fileName f \<noteq> n) (files st))"
    using False by auto
  then show ?thesis using False by (simp add: handleDeleteFile_def Let_def pointerOk_iff)
qed

lemma pointerOk_handleCreateFile: "pointerOk (handleCreateFile n p st)"
  by (simp add: pointerOk_iff handleCreateFile_def)

lemma pointerOk_handleContentChange:
  assumes "pointerOk st"
  shows "pointerOk (handleContentChange c st)"
proof (cases c)
  case None
  then show ?thesis using assms by (simp add: handleContentChange_def)
next
  case (Some t)
  have "map fileName (map (\<lambda>file. if fileName file = activeFileName st
                                  then file\<lparr>content := t\<rparr> else file) (files st))
          = map fileName (files st)"
    by (induction "files st") auto
  then have "pointerOk (handleContentChange c st) = pointerOk st"
    using Some by (intro pointerOk_names) (simp_all add: handleContentChange_def)
  then show ?thesis using assms by simp
qed

lemma pointerOk_resetProject: "pointerOk (resetProject st)"
  by (simp add: pointerOk_def resetProject_def)


lemma names_addFile: "set (map fileName (addFile n fs)) = insert n (set (map fileName fs))"
  by (auto simp: addFile_def some_iff)

lemma names_appendTo: "map fileName (appendTo n t fs) = map fileName fs"
  by (induction fs) (simp_all add: appendTo_def)

text \<open>
  During the loop of a chunk the pointer may name a file whose record is still to be added
  by a queued updater.
\<close>

lemma names_runUpdater:
  "set (map fileName (runUpdater cur u fs))
     = set (map fileName fs) \<union> (case u of AddFile n \<Rightarrow> {n} | AppendLine l \<Rightarrow> {})"
  by (cases u) (simp_all add: names_addFile names_appendTo split: option.splits del: set_map)

lemma names_foldl_runUpdater:
  "set (map fileName (foldl (\<lambda>fs u. runUpdater cur u fs) fs queue))
     = set (map fileName fs) \<union> {n. AddFile n \<in> set queue}"
proof (induction queue arbitrary: fs)
  case Nil
  then show ?case by simp
next
  case (Cons u queue)
  have "set (map fileName (foldl (\<lambda>fs u. runUpdater cur u fs) fs (u # queue)))
      = set (map fileName (runUpdater cur u fs)) \<union> {n. AddFile n \<in> set queue}"
    by (simp only: foldl.simps Cons.IH)
  also have "\<dots> = (set (map fileName fs) \<union> (case u of AddFile n \<Rightarrow> {n} | AppendLine l \<Rightarrow> {}))
      \<union> {n. AddFile n \<in> set queue}"
    by (simp only: names_runUpdater)
  also have "\<dots> = set (map fileName fs) \<union> {n. AddFile n \<in> set (u # queue)}"
    by (cases u) auto
  finally show ?case .
qed

lemma pointer_processLine:
  assumes "activeFileName st = [] \<or> activeFileName st \<in> set (map fileName (files st))
             \<or> AddFile (activeFileName st) \<in> set queue"
  shows "activeFileName (fst (processLine l st)) = []
           \<or> activeFileName (fst (processLine l st)) \<in> set (map fileName (files (fst (processLine l st))))
           \<or> AddFile (activeFileName (fst (processLine l st))) \<in> set (queue @ snd (processLine l st))"
  using assms by (auto simp: processLine_def Let_def)

lemma files_processLine [simp]: "files (fst (processLine l st)) = files st"
  by (simp add: processLine_def Let_def)

lemma pointer_drain:
  "activeFileName st = [] \<or> activeFileName st \<in> set (map fileName (files st))
     \<or> AddFile (activeFileName st) \<in> set queue
   \<Longrightarrow> activeFileName (fst (drain st queue)) = []
       \<or> activeFileName (fst (drain st queue)) \<in> set (map fileName (files (fst (drain st queue))))
       \<or> AddFile (activeFileName (fst (drain st queue))) \<in> set (snd (drain st queue))"
proof (induction st queue rule: drain.induct)
  case (1 st queue)
  show ?case
  proof (cases "indexOf (buffer st) NL")
    case None
    then show ?thesis using "1.prems" by (subst (1 2 3 4 5) drain.simps) simp
  next
    case (Some i)
    let ?st = "st\<lparr>buffer := drop (i + 1) (buffer st)\<rparr>"
    let ?r = "processLine (take i (buffer st)) ?st"
    have "activeFileName ?st = [] \<or> activeFileName ?st \<in> set (map fileName (files ?st))
            \<or> AddFile (activeFileName ?st) \<in> set queue"
      using "1.prems" by simp
    then have p: "activeFileName (fst ?r) = []
           \<or> activeFileName (fst ?r) \<in> set (map fileName (files (fst ?r)))
           \<or> AddFile (activeFileName (fst ?r)) \<in> set (queue @ snd ?r)"
      by (rule pointer_processLine)
    have d: "drain st queue = drain (fst ?r) (queue @ snd ?r)"
      using Some by (subst drain.simps) (simp add: Let_def)
    show ?thesis unfolding d using p by (rule "1.IH" [OF Some refl])
  qed
qed

lemma pointerOk_feed:
  assumes "pointerOk d"
  shows "pointerOk (feed d c)"
proof -
  let ?st = "d\<lparr>buffer := buffer d @ c\<rparr>"
  let ?r = "drain ?st []"
  have "activeFileName ?st = [] \<or> activeFileName ?st \<in> set (map fileName (files ?st))
          \<or> AddFile (activeFileName ?st) \<in> set []"
    using assms by (simp add: pointerOk_iff)
  then have "activeFileName (fst ?r) = []
       \<or> activeFileName (fst ?r) \<in> set (map fileName (files (fst ?r)))
       \<or> AddFile (activeFileName (fst ?r)) \<in> set (snd ?r)"
    by (rule pointer_drain)
  then have "pointerOk (runQueue (snd ?r) (fst ?r))"
    by (auto simp: pointerOk_iff runQueue_def names_foldl_runUpdater simp del: set_map)
  then show ?thesis by (simp add: feed_def Let_def)
qed

lemma pointerOk_streamed:
  assumes "pointerOk st"
  shows "pointerOk (streamed st chunks)"
proof (induction chunks rule: rev_induct)
  case Nil
  then show ?case using assms by (simp add: streamed_def start_def pointerOk_def)
next
  case (snoc c cs)
  then show ?case by (simp add: streamed_def pointerOk_feed)
qed

lemma pointerOk_flush: "pointerOk d \<Longrightarrow> pointerOk (flush d)"
proof -
  assume a: "pointerOk d"
  have "pointerOk (d\<lparr>files := appendTo n t (files d)\<rparr>) = pointerOk d" for n t
    by (rule pointerOk_names) (simp_all add: names_appendTo)
  then show ?thesis using a by (simp add: flush_def)
qed

lemma names_formattingPass: "map fileName (formattingPass prettier fs) = map fileName fs"
  by (simp add: formattingPass_map comp_def)

lemma pointerOk_handleSubmit:
  assumes "pointerOk st"
  shows "pointerOk (handleSubmit prettier p chunks raised st)"
proof (cases "trim (if truthy p then the p else prompt st) = [] \<or> isLoading st")
  case True
  then show ?thesis using assms by (simp add: handleSubmit_def Let_def)
next
  case False
  let ?d = "streamed (st\<lparr>isLoading := True, error := None\<rparr>) chunks"
  let ?d' = "case raised of None \<Rightarrow> flush ?d | Some e \<Rightarrow> ?d\<lparr>error := Some (failureText e)\<rparr>"
  have "pointerOk (st\<lparr>isLoading := True, error := None\<rparr>)" using assms by (simp add: pointerOk_def)
  then have d: "pointerOk ?d" by (rule pointerOk_streamed)
  have d': "pointerOk ?d'"
  proof (cases raised)
    case None
    then show ?thesis using pointerOk_flush [OF d] by simp
  next
    case (Some e)
    then show ?thesis using d by (simp add: pointerOk_def)
  qed
  have r: "handleSubmit prettier p chunks raised st
      = (appOf ?d')\<lparr>isLoading := False, files := formattingPass prettier (files ?d')\<rparr>"
    using False by (simp add: handleSubmit_def Let_def appOf_def)
  have "pointerOk (handleSubmit prettier p chunks raised st) = pointerOk ?d'"
    unfolding r by (rule pointerOk_names) (simp_all add: names_formattingPass appOf_def)
  then show ?thesis using d' by simp
qed

lemma pointerOk_applyChange: "pointerOk st \<Longrightarrow> pointerOk (applyChange prettier c st)"
  by (cases c)
     (simp_all add: pointerOk_handleDeleteFile pointerOk_handleCreateFile
        pointerOk_handleContentChange pointerOk_resetProject pointerOk_handleSubmit)

section \<open>Evaluating the demultiplexer on a concrete stream\<close>

lemmas demux_eval =
  demux_def streamed_def feed_def flush_def runQueue_def drain.simps start_def
  processLine_def Let_def startsWith_def marker_def trim_def isWhite_def addFile_def
  some_def appendTo_def

lemma parentPath_plain [simp]:
  "parentPath ''a.txt'' = []" "parentPath ''b.txt'' = []" "parentPath ''a.js'' = []"
  by (simp_all add: parentPath_def startsWith_def)

section \<open>Claims\<close>

text \<open>
  C1. The code does not give the same File Set for every chunking of a stream. The example
  stream of the specification, fed one line for each chunk, gives \<open>a.txt\<close> with
  \<open>hello\nworld\n\<close> and \<open>b.txt\<close> with \<open>foo\n\<close>. Fed as one chunk, it gives
  \<open>a.txt\<close> empty: the updaters that append \<open>hello\<close> and \<open>world\<close> run after the
  loop of the chunk, when \<open>currentFileName\<close> is \<open>b.txt\<close>, whose record the queue has
  not added yet.
\<close>

theorem chunking_changes_file_set:
  "concat sampleLines = sampleChunk
   \<and> files (demux initialState sampleLines)
       = [\<lparr>fileName = ''a.txt'', content = ''hello'' @ [NL] @ ''world'' @ [NL], path = Some [],
           ftype = Some File\<rparr>,
          \<lparr>fileName = ''b.txt'', content = ''foo'' @ [NL], path = Some [], ftype = Some File\<rparr>]
   \<and> files (demux initialState [sampleChunk])
       = [\<lparr>fileName = ''a.txt'', content = [], path = Some [], ftype = Some File\<rparr>,
          \<lparr>fileName = ''b.txt'', content = ''foo'' @ [NL], path = Some [], ftype = Some File\<rparr>]"
  by (simp add: sampleLines_def sampleChunk_def initialState_def demux_eval)

text \<open>
  C2. From an empty File Set, the single chunk
  \<open>>>>FILE: a.txt\nhello\nworld\n>>>FILE: b.txt\nfoo\n\<close> leaves two records in marker
  order, but \<open>a.txt\<close> is empty and only \<open>b.txt\<close> has its line: the lines routed to
  \<open>a.txt\<close> are appended nowhere. This is the File Set when the chunk has been read, and
  the File Set that \<open>handleSubmit\<close> leaves, whatever the pretty-printer.
\<close>

theorem example_chunk_loses_lines:
  "files (streamed initialState [sampleChunk])
     = [\<lparr>fileName = ''a.txt'', content = [], path = Some [], ftype = Some File\<rparr>,
        \<lparr>fileName = ''b.txt'', content = ''foo'' @ [NL], path = Some [], ftype = Some File\<rparr>]
   \<and> files (handleSubmit prettier (Some ''a page'') [sampleChunk] None initialState)
     = [\<lparr>fileName = ''a.txt'', content = [], path = None, ftype = None\<rparr>,
        \<lparr>fileName = ''b.txt'', content = ''foo'' @ [NL], path = None, ftype = None\<rparr>]"
  by (simp add: sampleChunk_def initialState_def demux_eval handleSubmit_def appOf_def
        formattingPass_map formatted_def formatCode_def getParser_def endsWith_def)



text \<open>
  C4. A complete line is not always appended to the file that was the current target when
  the line was processed. In the second chunk of this stream the line \<open>two\<close> follows the
  marker of \<open>b.txt\<close> and comes before the marker of \<open>a.txt\<close>; its updater runs after
  the loop of the chunk and appends it to \<open>a.txt\<close>, and \<open>b.txt\<close> stays empty.
\<close>

theorem completed_line_goes_astray:
  "files (demux initialState twoTargets)
     = [\<lparr>fileName = ''a.txt'', content = ''one'' @ [NL] @ ''two'' @ [NL] @ ''three'' @ [NL],
          path = Some [], ftype = Some File\<rparr>,
        \<lparr>fileName = ''b.txt'', content = [], path = Some [], ftype = Some File\<rparr>]"
  by (simp add: twoTargets_def initialState_def demux_eval)

text \<open>
  C5. A complete line that does not start with the marker token, processed while there is
  no current target, changes nothing but the buffer: it queues no updater, so it is appended
  to no file and creates no record. A stream that begins with such lines (the pre-amble,
  cut into chunks in any way, its last piece \<open>x\<close> arriving in one chunk with the text
  \<open>c\<close> that follows) ends in the same state as the stream that begins with the chunk
  \<open>c\<close>: the pre-amble appears nowhere in the File Set.
\<close>

theorem preamble_discarded:
  "(currentFileName d = None \<and> NL \<notin> set (buffer d) \<and> NL \<notin> set txt
      \<and> \<not> startsWith (buffer d @ txt) marker
      \<longrightarrow> feed d (txt @ [NL]) = d\<lparr>buffer := []\<rparr>)
   \<and> ((\<forall>l \<in> set pre. NL \<notin> set l \<and> \<not> startsWith l marker)
        \<and> concat pcs @ x = lineText pre
      \<longrightarrow> streamed st (pcs @ (x @ c) # cs) = streamed st (c # cs)
          \<and> demux st (pcs @ (x @ c) # cs) = demux st (c # cs))"
proof (intro conjI impI)
  assume "currentFileName d = None \<and> NL \<notin> set (buffer d) \<and> NL \<notin> set txt
      \<and> \<not> startsWith (buffer d @ txt) marker"
  then show "feed d (txt @ [NL]) = d\<lparr>buffer := []\<rparr>"
    by (simp add: feed_line processLine_quiet runQueue_Nil)
next
  assume a: "(\<forall>l \<in> set pre. NL \<notin> set l \<and> \<not> startsWith l marker)
        \<and> concat pcs @ x = lineText pre"
  then have w: "\<forall>l \<in> set pre. NL \<notin> set l \<and> \<not> startsWith l marker"
    and e: "lineText pre = concat pcs @ x" by simp_all
  let ?p = "concat pcs"
  let ?ls = "completeLines (leftover ?p @ x)"
  have "completeLines (lineText pre @ []) = pre @ completeLines []"
    using w by (intro completeLines_lineText) simp
  then have "completeLines (lineText pre) = pre" by (simp add: completeLines_no_newline)
  then have "completeLines (?p @ x) = pre" by (simp only: e)
  then have pre: "completeLines ?p @ ?ls = pre"
    by (simp only: completeLines_append [of ?p x, symmetric])
  have "\<forall>l \<in> set (completeLines ?p @ ?ls). NL \<notin> set l \<and> \<not> startsWith l marker"
    using w by (simp only: pre)
  then have q1: "\<forall>l \<in> set (completeLines ?p). \<not> startsWith l marker"
    and q2: "\<forall>l \<in> set ?ls. NL \<notin> set l \<and> \<not> startsWith l marker"
    by auto
  have "leftover (lineText pre @ []) = leftover []" by (rule leftover_lineText)
  then have "leftover (?p @ x) = []" by (simp add: leftover_def e)
  then have l0: "leftover (leftover ?p @ x) = []" by (simp only: leftover_append)
  have "lineText ?ls @ leftover (leftover ?p @ x) = leftover ?p @ x"
    by (rule text_decompose [symmetric])
  then have x: "lineText ?ls = leftover ?p @ x" by (simp only: l0 append_Nil2)
  have "foldl feed (start st) pcs = (start st)\<lparr>buffer := leftover (buffer (start st) @ ?p)\<rparr>"
    using q1 by (intro foldl_feed_quiet) (simp_all add: start_def)
  then have p: "foldl feed (start st) pcs = (start st)\<lparr>buffer := leftover ?p\<rparr>"
    by (simp add: start_def)
  have "drain ((start st)\<lparr>buffer := lineText ?ls @ c\<rparr>) [] = drain ((start st)\<lparr>buffer := c\<rparr>) []"
    using q2 by (intro drain_quiet_lines) (simp_all add: start_def)
  then have "drain ((start st)\<lparr>buffer := (leftover ?p @ x) @ c\<rparr>) []
      = drain ((start st)\<lparr>buffer := c\<rparr>) []"
    by (simp only: x)
  then have "feed ((start st)\<lparr>buffer := leftover ?p\<rparr>) (x @ c) = feed (start st) c"
    by (simp add: feed_def start_def)
  then show s: "streamed st (pcs @ (x @ c) # cs) = streamed st (c # cs)"
    by (simp add: streamed_def p)
  then show "demux st (pcs @ (x @ c) # cs) = demux st (c # cs)" by (simp add: demux_def)
qed

theorem preamble_discarded_witness:
  "currentFileName (start initialState) = None \<and> NL \<notin> set (buffer (start initialState))
   \<and> NL \<notin> set ''Sure, here it is:'' \<and> \<not> startsWith ([] @ ''Sure, here it is:'') marker
   \<and> feed (start initialState) (''Sure, here it is:'' @ [NL]) = start initialState
   \<and> NL \<notin> set '' '' \<and> \<not> startsWith '' '' marker
   \<and> concat [''Sure, here'', '' it is:'' @ [NL]] @ ('' '' @ [NL])
       = lineText [''Sure, here it is:'', '' '']
   \<and> demux initialState
         ([''Sure, here'', '' it is:'' @ [NL]]
            @ (('' '' @ [NL]) @ (''>>>FILE: a.txt'' @ [NL] @ ''x'')) # [''y''])
       = demux initialState ((''>>>FILE: a.txt'' @ [NL] @ ''x'') # [''y''])
   \<and> files (demux initialState
         ([''Sure, here'', '' it is:'' @ [NL]]
            @ (('' '' @ [NL]) @ (''>>>FILE: a.txt'' @ [NL] @ ''x'')) # [''y'']))
       = [\<lparr>fileName = ''a.txt'', content = ''xy'', path = Some [], ftype = Some File\<rparr>]"
proof -
  have h1: "currentFileName (start initialState) = None \<and> NL \<notin> set (buffer (start initialState))
      \<and> NL \<notin> set ''Sure, here it is:''
      \<and> \<not> startsWith (buffer (start initialState) @ ''Sure, here it is:'') marker"
    by (simp add: start_def startsWith_def marker_def)
  have h2: "(\<forall>l \<in> set [''Sure, here it is:'', '' '']. NL \<notin> set l \<and> \<not> startsWith l marker)
      \<and> concat [''Sure, here'', '' it is:'' @ [NL]] @ ('' '' @ [NL])
       = lineText [''Sure, here it is:'', '' '']"
    by (simp add: startsWith_def marker_def lineText_def)
  have v: "files (demux initialState ((''>>>FILE: a.txt'' @ [NL] @ ''x'') # [''y'']))
       = [\<lparr>fileName = ''a.txt'', content = ''xy'', path = Some [], ftype = Some File\<rparr>]"
    by (simp add: initialState_def demux_eval)
  from preamble_discarded [of "start initialState" "''Sure, here it is:''"
      "[''Sure, here it is:'', '' '']" "[''Sure, here'', '' it is:'' @ [NL]]" "'' '' @ [NL]"
      initialState "''>>>FILE: a.txt'' @ [NL] @ ''x''" "[''y'']"] h1 h2 v
  show ?thesis by (simp add: start_def)
qed

text \<open>
  C6. \<open>formatCode\<close> never raises: for every pretty-printer, file name and content its
  result is a value, not a rejection. It returns the content it was given when the extension
  is not recognised, when the name ends in \<open>.css\<close> and the counts of opening and closing
  braces differ, when the trimmed content is empty or shorter than 10 characters, and when
  the pretty-printer fails.
\<close>

theorem formatCode_never_raises:
  "(\<exists>r. formatCode prettier name text = Inr r)
   \<and> (getParser name = None
       \<or> (endsWith name ''.css'' \<and> countChar (CHR ''{'') text \<noteq> countChar (CHR ''}'') text)
       \<or> length (trim text) < 10
       \<or> (\<exists>p e. getParser name = Some p \<and> prettier p text = Inl e)
      \<longrightarrow> formatCode prettier name text = Inr text)"
  by (auto simp: formatCode_def split: option.splits sum.splits)

theorem formatCode_never_raises_witness:
  "getParser ''notes.md'' = None
   \<and> formatCode failingPrinter ''notes.md'' ''# a long enough title'' = Inr ''# a long enough title''
   \<and> endsWith ''style.css'' ''.css''
   \<and> countChar (CHR ''{'') ''body { color: red; '' \<noteq> countChar (CHR ''}'') ''body { color: red; ''
   \<and> formatCode failingPrinter ''style.css'' ''body { color: red; '' = Inr ''body { color: red; ''
   \<and> length (trim ''  x = 1;  '') < 10
   \<and> formatCode failingPrinter ''a.js'' ''  x = 1;  '' = Inr ''  x = 1;  ''
   \<and> getParser ''a.js'' = Some Babel
   \<and> failingPrinter Babel ''function ( { return'' = Inl (ErrorObj ''SyntaxError'')
   \<and> formatCode failingPrinter ''a.js'' ''function ( { return'' = Inr ''function ( { return''"
proof -
  have h1: "getParser ''notes.md'' = None" by (simp add: getParser_def endsWith_def)
  have h2: "endsWith ''style.css'' ''.css''
      \<and> countChar (CHR ''{'') ''body { color: red; '' \<noteq> countChar (CHR ''}'') ''body { color: red; ''"
    by (simp add: endsWith_def countChar_def)
  have h3: "length (trim ''  x = 1;  '') < 10" by (simp add: trim_def isWhite_def)
  have h4: "getParser ''a.js'' = Some Babel
      \<and> failingPrinter Babel ''function ( { return'' = Inl (ErrorObj ''SyntaxError'')"
    by (simp add: getParser_def endsWith_def failingPrinter_def)
  from formatCode_never_raises [of failingPrinter "''notes.md''" "''# a long enough title''"] h1
  have c1: "formatCode failingPrinter ''notes.md'' ''# a long enough title'' = Inr ''# a long enough title''"
    by blast
  from formatCode_never_raises [of failingPrinter "''style.css''" "''body { color: red; ''"] h2
  have c2: "formatCode failingPrinter ''style.css'' ''body { color: red; '' = Inr ''body { color: red; ''"
    by blast
  from formatCode_never_raises [of failingPrinter "''a.js''" "''  x = 1;  ''"] h3
  have c3: "formatCode failingPrinter ''a.js'' ''  x = 1;  '' = Inr ''  x = 1;  ''"
    by blast
  from formatCode_never_raises [of failingPrinter "''a.js''" "''function ( { return''"] h4
  have c4: "formatCode failingPrinter ''a.js'' ''function ( { return'' = Inr ''function ( { return''"
    by blast
  from h1 h2 h3 h4 c1 c2 c3 c4 show ?thesis by blast
qed

text \<open>
  C7 as stated fails. A stored value that parses to something other than an array (here an
  object) makes the loader return the empty project and remove the key \<open>code-project\<close>
  only: another key that the loader's own test counts as related to the project
  (\<open>ai-theme\<close> contains \<open>ai\<close>) stays in the storage. A stored empty text makes it
  return the empty project and clear nothing.
\<close>

theorem loadFiles_partial_clear_counterexample:
  "relatedKey ''ai-theme''
   \<and> loadFiles (map_of [(''{}'', JObj [])]) [(''code-project'', ''{}''), (''ai-theme'', ''dark'')]
       = ([], [(''ai-theme'', ''dark'')])
   \<and> loadFiles (map_of [(''{}'', JObj [])]) [(''code-project'', '''')]
       = ([], [(''code-project'', '''')])"
  by (simp add: relatedKey_def startsWith_def loadFiles_def getItem_def removeItem_def)


text \<open>
  C7, amended. The loader always returns (it has no failing branch). With a stored text
  under \<open>code-project\<close>:
  an empty text gives the empty project and leaves the storage as it is;
  a text that does not parse gives the empty project and removes \<open>code-project\<close> and
  every key containing \<open>code\<close>, \<open>project\<close> or \<open>ai\<close>;
  a text that parses to something that is not an array gives the empty project and removes
  the key \<open>code-project\<close> only;
  a text that parses to an array is returned as the initial File Set, the storage untouched,
  when every element is an object with a string \<open>fileName\<close> and a string
  \<open>content\<close>; otherwise the result is the empty project, and the first element that is
  not such an object decides what is removed: everything related when it is \<open>null\<close>,
  \<open>code-project\<close> only when it is anything else.
\<close>

theorem loadFiles_cases:
  assumes "getItem ls ''code-project'' = Some saved"
  shows "(saved = [] \<longrightarrow> loadFiles parse ls = ([], ls))
   \<and> (saved \<noteq> [] \<and> parse saved = None \<longrightarrow> loadFiles parse ls = ([], clearProjectKeys ls))
   \<and> (saved \<noteq> [] \<and> parse saved = Some v \<and> (\<forall>xs. v \<noteq> JArr xs)
        \<longrightarrow> loadFiles parse ls = ([], removeItem ''code-project'' ls))
   \<and> (saved \<noteq> [] \<and> parse saved = Some (JArr xs) \<longrightarrow>
        loadFiles parse ls =
          (case find (\<lambda>x. \<not> validFile x) xs of
             None \<Rightarrow> (xs, ls)
           | Some x \<Rightarrow> (if x = JNull then ([], clearProjectKeys ls)
                        else ([], removeItem ''code-project'' ls))))
   \<and> clearProjectKeys ls = filter (\<lambda>kv. fst kv \<noteq> ''code-project'' \<and> \<not> relatedKey (fst kv)) ls
   \<and> getItem (removeItem ''code-project'' ls) ''code-project'' = None"
proof (intro conjI impI)
  show "clearProjectKeys ls = filter (\<lambda>kv. fst kv \<noteq> ''code-project'' \<and> \<not> relatedKey (fst kv)) ls"
    by (rule clearProjectKeys_filter)
  show "getItem (removeItem ''code-project'' ls) ''code-project'' = None"
    by (rule getItem_removeItem)
next
  assume "saved = []"
  then show "loadFiles parse ls = ([], ls)" using assms by (simp add: loadFiles_def)
next
  assume "saved \<noteq> [] \<and> parse saved = None"
  then show "loadFiles parse ls = ([], clearProjectKeys ls)" using assms by (simp add: loadFiles_def)
next
  assume "saved \<noteq> [] \<and> parse saved = Some v \<and> (\<forall>xs. v \<noteq> JArr xs)"
  then show "loadFiles parse ls = ([], removeItem ''code-project'' ls)"
    using assms by (cases v) (simp_all add: loadFiles_def)
next
  assume "saved \<noteq> [] \<and> parse saved = Some (JArr xs)"
  then show "loadFiles parse ls =
          (case find (\<lambda>x. \<not> validFile x) xs of
             None \<Rightarrow> (xs, ls)
           | Some x \<Rightarrow> (if x = JNull then ([], clearProjectKeys ls)
                        else ([], removeItem ''code-project'' ls)))"
    using assms by (simp add: loadFiles_def every_fileShaped split: option.splits)
qed

theorem loadFiles_cases_witness:
  "getItem [(''code-project'', sampleStored), (''ai-theme'', ''dark''), (''lang'', ''en'')]
      ''code-project'' = Some sampleStored
   \<and> sampleStored \<noteq> []
   \<and> map_of [(sampleStored, sampleParsed), (''[null]'', JArr [JNull])] sampleStored
       = Some sampleParsed
   \<and> loadFiles (map_of [(sampleStored, sampleParsed), (''[null]'', JArr [JNull])])
        [(''code-project'', sampleStored), (''ai-theme'', ''dark''), (''lang'', ''en'')]
       = ([JObj [(''fileName'', JStr ''a.txt''), (''content'', JStr ''hi'')]],
          [(''code-project'', sampleStored), (''ai-theme'', ''dark''), (''lang'', ''en'')])
   \<and> getItem [(''code-project'', ''[null]''), (''ai-theme'', ''dark''), (''lang'', ''en'')]
      ''code-project'' = Some ''[null]''
   \<and> loadFiles (map_of [(sampleStored, sampleParsed), (''[null]'', JArr [JNull])])
        [(''code-project'', ''[null]''), (''ai-theme'', ''dark''), (''lang'', ''en'')]
       = ([], [(''lang'', ''en'')])"
proof -
  let ?parse = "map_of [(sampleStored, sampleParsed), (''[null]'', JArr [JNull])]"
  let ?ls1 = "[(''code-project'', sampleStored), (''ai-theme'', ''dark''), (''lang'', ''en'')]"
  let ?ls2 = "[(''code-project'', ''[null]''), (''ai-theme'', ''dark''), (''lang'', ''en'')]"
  let ?xs = "[JObj [(''fileName'', JStr ''a.txt''), (''content'', JStr ''hi'')]]"
  have g1: "getItem ?ls1 ''code-project'' = Some sampleStored" by (simp add: getItem_def)
  have g2: "getItem ?ls2 ''code-project'' = Some ''[null]''" by (simp add: getItem_def)
  have n: "sampleStored \<noteq> []" by (simp add: sampleStored_def)
  have p1: "?parse sampleStored = Some (JArr ?xs)" by (simp add: sampleParsed_def)
  have p2: "?parse ''[null]'' = Some (JArr [JNull])" by (simp add: sampleStored_def quoted_def)
  have v: "find (\<lambda>x. \<not> validFile x) ?xs = None" by (simp add: validFile_def isString_def)
  have r: "relatedKey ''ai-theme''" "\<not> relatedKey ''lang''"
    by (simp_all add: relatedKey_def startsWith_def)
  from loadFiles_cases [OF g1, of ?parse JNull ?xs] n p1 v
  have c1: "loadFiles ?parse ?ls1 = (?xs, ?ls1)" by simp
  from loadFiles_cases [OF g2, of ?parse JNull "[JNull]"] p2 r
  have c2: "loadFiles ?parse ?ls2 = ([], [(''lang'', ''en'')])" by (simp add: validFile_def)
  from g1 g2 n p1 c1 c2 show ?thesis by (simp add: sampleParsed_def)
qed

text \<open>
  C8 as stated fails: the error path does change the content built so far. The formatting
  pass is in the \<open>finally\<close> block, so it also runs when the stream has raised, and it
  replaces every file by its formatted version. Here the stream delivers a script line with
  three spaces and then raises; the content built so far has the three spaces, the File
  Set that \<open>handleSubmit\<close> leaves has the pretty-printer's output.
\<close>

theorem error_path_reformats_counterexample:
  "map content (files (builtSoFar (initialState\<lparr>prompt := ''a page''\<rparr>) [twoSpaces]))
     = [''var   x = 1;'' @ [NL]]
   \<and> map content
        (files (handleSubmit
           (tablePrinter [((Babel, ''var   x = 1;'' @ [NL]), ''var x = 1;'' @ [NL])])
           None [twoSpaces] (Some (ErrorObj ''503'')) (initialState\<lparr>prompt := ''a page''\<rparr>)))
     = [''var x = 1;'' @ [NL]]"
proof -
  have b: "builtSoFar (initialState\<lparr>prompt := ''a page''\<rparr>) [twoSpaces]
     = \<lparr>files = [\<lparr>fileName = ''a.js'', content = ''var   x = 1;'' @ [NL], path = Some [],
                   ftype = Some File\<rparr>],
        activeFileName = ''a.js'', isLoading = True, error = None, prompt = ''a page'',
        currentFileName = Some ''a.js'', buffer = ''var y''\<rparr>"
    by (simp add: builtSoFar_def twoSpaces_def demux_eval initialState_def parentPath_def)
  have g: "trim (if truthy None then the None else prompt (initialState\<lparr>prompt := ''a page''\<rparr>)) \<noteq> []"
    "\<not> isLoading (initialState\<lparr>prompt := ''a page''\<rparr>)"
    by (simp_all add: trim_def isWhite_def initialState_def)
  show ?thesis
    unfolding handleSubmit_raised [OF g] b
    by (simp add: formatted_def formatCode_def getParser_def endsWith_def trim_def isWhite_def
          tablePrinter_def)
qed


text \<open>
  C8, amended. If the stream raises after delivering some chunks, \<open>handleSubmit\<close> stops
  reading (the partial line in the buffer is not appended), sets the error message
  \<open>Failed to generate code: \<dots>\<close> and clears the loading flag. The File Set it leaves has
  the records built so far, with the same names in the same order, and the content of each is
  what \<open>formatCode\<close> returns for the content built so far; so every content is exactly as
  built wherever \<open>formatCode\<close> returns its input. \<open>handleSubmit\<close> reads one stream and
  has no path that opens another.
\<close>

theorem error_keeps_formatted_partial_files:
  assumes "trim (if truthy finalPrompt then the finalPrompt else prompt st) \<noteq> []"
    and "\<not> isLoading st"
  shows "error (handleSubmit prettier finalPrompt chunks (Some e) st) = Some (failureText e)
   \<and> isLoading (handleSubmit prettier finalPrompt chunks (Some e) st) = False
   \<and> activeFileName (handleSubmit prettier finalPrompt chunks (Some e) st)
       = activeFileName (builtSoFar st chunks)
   \<and> map fileName (files (handleSubmit prettier finalPrompt chunks (Some e) st))
       = map fileName (files (builtSoFar st chunks))
   \<and> map (\<lambda>f. Inr (content f)) (files (handleSubmit prettier finalPrompt chunks (Some e) st))
       = map (\<lambda>f. formatCode prettier (fileName f) (content f)) (files (builtSoFar st chunks))
   \<and> ((\<forall>f \<in> set (files (builtSoFar st chunks)).
          formatCode prettier (fileName f) (content f) = Inr (content f))
       \<longrightarrow> map content (files (handleSubmit prettier finalPrompt chunks (Some e) st))
           = map content (files (builtSoFar st chunks)))"
proof -
  have f: "Inr (formatted prettier f) = formatCode prettier (fileName f) (content f)" for f
    using formatCode_Inr [of prettier "fileName f" "content f"] by (simp add: formatted_def)
  have g: "formatCode prettier (fileName f) (content f) = Inr (content f)
            \<Longrightarrow> formatted prettier f = content f" for f
    by (simp add: formatted_def)
  show ?thesis
    unfolding handleSubmit_raised [OF assms]
    by (simp add: comp_def f g)
qed

theorem error_keeps_formatted_partial_files_witness:
  "trim (if truthy None then the None else prompt (initialState\<lparr>prompt := ''a page''\<rparr>)) \<noteq> []
   \<and> \<not> isLoading (initialState\<lparr>prompt := ''a page''\<rparr>)
   \<and> files (builtSoFar (initialState\<lparr>prompt := ''a page''\<rparr>) [twoSpaces])
       = [\<lparr>fileName = ''a.js'', content = ''var   x = 1;'' @ [NL], path = Some [],
           ftype = Some File\<rparr>]
   \<and> formatCode failingPrinter ''a.js'' (''var   x = 1;'' @ [NL]) = Inr (''var   x = 1;'' @ [NL])
   \<and> error (handleSubmit failingPrinter None [twoSpaces] (Some (ErrorObj ''503''))
        (initialState\<lparr>prompt := ''a page''\<rparr>))
       = Some ''Failed to generate code: 503. Please check your API key and try again.''
   \<and> isLoading (handleSubmit failingPrinter None [twoSpaces] (Some (ErrorObj ''503''))
        (initialState\<lparr>prompt := ''a page''\<rparr>)) = False
   \<and> map fileName (files (handleSubmit failingPrinter None [twoSpaces] (Some (ErrorObj ''503''))
        (initialState\<lparr>prompt := ''a page''\<rparr>))) = [''a.js'']
   \<and> map content (files (handleSubmit failingPrinter None [twoSpaces] (Some (ErrorObj ''503''))
        (initialState\<lparr>prompt := ''a page''\<rparr>))) = [''var   x = 1;'' @ [NL]]"
proof -
  let ?st = "initialState\<lparr>prompt := ''a page''\<rparr>"
  have g: "trim (if truthy None then the None else prompt ?st) \<noteq> []" "\<not> isLoading ?st"
    by (simp_all add: trim_def isWhite_def initialState_def)
  have b: "files (builtSoFar ?st [twoSpaces])
       = [\<lparr>fileName = ''a.js'', content = ''var   x = 1;'' @ [NL], path = Some [],
           ftype = Some File\<rparr>]"
    by (simp add: builtSoFar_def twoSpaces_def demux_eval initialState_def parentPath_def)
  have f: "formatCode failingPrinter ''a.js'' (''var   x = 1;'' @ [NL]) = Inr (''var   x = 1;'' @ [NL])"
    by (simp add: formatCode_def getParser_def endsWith_def trim_def isWhite_def failingPrinter_def)
  from error_keeps_formatted_partial_files [OF g, of failingPrinter "[twoSpaces]" "ErrorObj ''503''"]
    g b f
  show ?thesis by (simp add: failureText_def errorMessage_def)
qed


text \<open>
  C9. Deleting the active file sets the pointer to a file that remains, or to the empty
  name when no file remains, and no record with the deleted name is left. After every
  change of the File Set (a deletion, a creation, an edit, a reset, a generation) the
  pointer effect leaves a pointer that is empty or names a record; and each change by
  itself already keeps a pointer that was empty or named a record that way.
\<close>

theorem active_pointer_never_dangles:
  "(activeFileName st = del \<longrightarrow>
      (files (handleDeleteFile del st) = [] \<and> activeFileName (handleDeleteFile del st) = []
       \<or> some (\<lambda>f. fileName f = activeFileName (handleDeleteFile del st))
            (files (handleDeleteFile del st)))
      \<and> \<not> some (\<lambda>f. fileName f = del) (files (handleDeleteFile del st)))
   \<and> pointerOk (filesEffect (applyChange prettier c st))
   \<and> (pointerOk st \<longrightarrow> pointerOk (applyChange prettier c st))"
proof (intro conjI impI)
  assume "activeFileName st = del"
  then show "files (handleDeleteFile del st) = [] \<and> activeFileName (handleDeleteFile del st) = []
       \<or> some (\<lambda>f. fileName f = activeFileName (handleDeleteFile del st))
            (files (handleDeleteFile del st))"
    using firstFileName_ok [of "filter (\<lambda>f. fileName f \<noteq> del) (files st)"]
    by (simp add: handleDeleteFile_def Let_def)
  show "\<not> some (\<lambda>f. fileName f = del) (files (handleDeleteFile del st))"
    by (simp add: handleDeleteFile_def Let_def some_iff)
next
  show "pointerOk (filesEffect (applyChange prettier c st))" by (rule pointerOk_filesEffect)
next
  assume "pointerOk st"
  then show "pointerOk (applyChange prettier c st)" by (rule pointerOk_applyChange)
qed

theorem active_pointer_never_dangles_witness:
  "activeFileName twoFiles = ''a.txt'' \<and> pointerOk twoFiles
   \<and> handleDeleteFile ''a.txt'' twoFiles
       = twoFiles\<lparr>files := [\<lparr>fileName = ''b.txt'', content = ''B'', path = Some [],
                               ftype = Some File\<rparr>],
                   activeFileName := ''b.txt''\<rparr>
   \<and> some (\<lambda>f. fileName f = activeFileName (handleDeleteFile ''a.txt'' twoFiles))
        (files (handleDeleteFile ''a.txt'' twoFiles))
   \<and> \<not> some (\<lambda>f. fileName f = ''a.txt'') (files (handleDeleteFile ''a.txt'' twoFiles))
   \<and> pointerOk (applyChange failingPrinter (DeleteFile ''a.txt'') twoFiles)
   \<and> pointerOk (filesEffect (applyChange failingPrinter (DeleteFile ''a.txt'') twoFiles))"
proof -
  have h: "activeFileName twoFiles = ''a.txt''" "pointerOk twoFiles"
    by (simp_all add: twoFiles_def pointerOk_def some_def)
  have d: "handleDeleteFile ''a.txt'' twoFiles
       = twoFiles\<lparr>files := [\<lparr>fileName = ''b.txt'', content = ''B'', path = Some [],
                               ftype = Some File\<rparr>],
                   activeFileName := ''b.txt''\<rparr>"
    by (simp add: handleDeleteFile_def twoFiles_def firstFileName_def)
  have n: "files (handleDeleteFile ''a.txt'' twoFiles) \<noteq> []" by (simp add: d)
  from active_pointer_never_dangles [of twoFiles "''a.txt''" failingPrinter "DeleteFile ''a.txt''"]
    h d n
  show ?thesis by simp
qed

text \<open>
  C10. A generation streams into the File Set that is there, and a marker that names an
  existing record adds no record; but the lines that follow such a marker are not always
  appended to that record. Here one chunk regenerates a page and a style sheet that both
  exist: the page keeps its old content only, and the new line of the page is appended to
  the style sheet, after its old content and before its own new line.
\<close>

theorem regeneration_misroutes_lines:
  "files (demux webProject [webStream])
     = [\<lparr>fileName = ''index.html'', content = ''<p>old</p>'' @ [NL], path = Some [],
          ftype = Some File\<rparr>,
        \<lparr>fileName = ''style.css'',
          content = ''p {}'' @ [NL] @ ''<p>new</p>'' @ [NL] @ ''b {}'' @ [NL], path = Some [],
          ftype = Some File\<rparr>]"
  by (simp add: webProject_def webStream_def demux_eval)

end
